theory Spec2Isabelle
  imports Main
begin

section \<open>Strings\<close>

text \<open>
  A Python \<open>str\<close> is modelled by its UTF-8 byte sequence, an Isabelle \<open>string\<close>.
  The operations used by the scripts (\<open>join\<close>, concatenation, equality and
  \<open>replace\<close> of an ASCII character) act on the bytes exactly as they act on the
  code points, and \<open>encode('utf-8')\<close> is the identity on this representation.
\<close>

definition quote :: char where
  "quote = CHR 0x27"

definition dquote :: char where
  "dquote = CHR 0x22"

text \<open>\<open>sep.join(xs)\<close>\<close>

fun join :: "string \<Rightarrow> string list \<Rightarrow> string" where
  "join sep [] = []"
| "join sep [x] = x"
| "join sep (x # y # ys) = x @ sep @ join sep (y # ys)"

text \<open>\<open>s.replace("'", "''")\<close>: every single quote is doubled.\<close>

fun replace_quote :: "string \<Rightarrow> string" where
  "replace_quote [] = []"
| "replace_quote (c # cs) = (if c = quote then quote # quote # replace_quote cs
                            else c # replace_quote cs)"

text \<open>\<open>s.replace('"', '')\<close>: every double quote is removed.\<close>

definition remove_dquotes :: "string \<Rightarrow> string" where
  "remove_dquotes s = filter (\<lambda>c. c \<noteq> dquote) s"

section \<open>Statement Builder: \<open>make_sql_insert\<close>\<close>

text \<open>
  The scalar values a record holds. The type \<open>'f\<close> stands for Python's \<open>float\<close>;
  its textual form \<open>str(x)\<close> is a parameter \<open>fstr\<close> of the model.
\<close>

datatype 'f pyval = PNone | PStr string | PInt int | PFloat 'f | PBool bool

definition digit_char :: "nat \<Rightarrow> char" where
  "digit_char d = ''0123456789'' ! d"

fun str_nat :: "nat \<Rightarrow> string" where
  "str_nat n = (if n < 10 then [digit_char n]
                else str_nat (n div 10) @ [digit_char (n mod 10)])"

declare str_nat.simps [simp del]

definition str_int :: "int \<Rightarrow> string" where
  "str_int i = (if i < 0 then CHR ''-'' # str_nat (nat (- i)) else str_nat (nat i))"

text \<open>\<open>str(v)\<close>\<close>

fun py_str :: "('f \<Rightarrow> string) \<Rightarrow> 'f pyval \<Rightarrow> string" where
  "py_str fstr PNone = ''None''"
| "py_str fstr (PStr s) = s"
| "py_str fstr (PInt i) = str_int i"
| "py_str fstr (PFloat x) = fstr x"
| "py_str fstr (PBool b) = (if b then ''True'' else ''False'')"

text \<open>
  One element of the list comprehension of \<open>make_sql_insert\<close>:
  \<^verbatim>\<open>f"'{str(v).replace("'", "''")}'" if v is not None else "NULL"\<close>
\<close>

definition render_value :: "('f \<Rightarrow> string) \<Rightarrow> 'f pyval \<Rightarrow> string" where
  "render_value fstr v =
     (if v \<noteq> PNone then [quote] @ replace_quote (py_str fstr v) @ [quote] else ''NULL'')"

text \<open>
  A record is a Python \<open>dict\<close>, which keeps insertion order: an association list.
  \<^verbatim>\<open>
  columns = ', '.join(data.keys())
  values = ', '.join([... for v in data.values()])
  return f"INSERT INTO {table_name} ({columns}) VALUES ({values})"
  \<close>
\<close>

definition make_sql_insert :: "('f \<Rightarrow> string) \<Rightarrow> string \<Rightarrow> (string \<times> 'f pyval) list \<Rightarrow> string" where
  "make_sql_insert fstr table_name data =
     (let columns = join '', '' (map fst data);
          vals = join '', '' (map (\<lambda>v. render_value fstr v) (map snd data))
      in ''INSERT INTO '' @ table_name @ '' ('' @ columns @ '') VALUES ('' @ vals @ '')'')"

subsection \<open>Reading a quoted literal back\<close>

text \<open>
  The reader of a quoted literal, as the specification words it: the literal is
  unquoted and doubled quotes are halved. \<open>unescape\<close> reads the text after the
  opening quote up to the closing quote, which must end the text; a single quote
  followed by anything but a quote is not a literal.
\<close>

fun unescape :: "string \<Rightarrow> string option" where
  "unescape [] = None"
| "unescape [c] = (if c = quote then Some [] else None)"
| "unescape (c # d # ds) =
     (if c = quote then (if d = quote then map_option ((#) quote) (unescape ds) else None)
      else map_option ((#) c) (unescape (d # ds)))"

definition parse_sql_literal :: "string \<Rightarrow> string option" where
  "parse_sql_literal s =
     (case s of [] \<Rightarrow> None | c # cs \<Rightarrow> if c = quote then unescape cs else None)"

section \<open>Bulk Import Driver: \<open>d1_bulk_import\<close>\<close>

subsection \<open>The remote side\<close>

text \<open>
  What one HTTP call gives the script: \<open>requests.post\<close> or \<open>requests.put\<close>
  raises (connection error, timeout), or \<open>raise_for_status()\<close> raises for a 4xx or
  5xx status, or a response is at hand.
\<close>

datatype 'a http = ConnectionError | HTTPError | Response 'a

text \<open>
  What \<open>.json()\<close> and the subscripts \<open>[...]\<close> that follow give: the body is not
  JSON, or a key that the script reads is missing (the subscript raises), or the
  fields read are there.
  The flag of \<open>Undecodable\<close> tells whether the exception raised by \<open>.json()\<close> is
  the \<open>requests\<close> library's own \<open>JSONDecodeError\<close>, which is a
  \<open>RequestException\<close> as well as a \<open>json.JSONDecodeError\<close> (recent versions of
  the library), or a plain \<open>json.JSONDecodeError\<close>.
\<close>

datatype 'a json = Undecodable bool | NoSuchKey | Fields 'a

text \<open>\<open>poll_result\<close>: the key \<open>"error"\<close> may be absent.\<close>

record poll_result =
  success :: bool
  error :: "string option"

text \<open>
  The answers of the remote service to the calls of one import: the init call
  (upload URL and filename), the upload (the \<open>ETag\<close> header, if any), the ingest
  call (the bookmark) and the successive poll calls.
\<close>

record server =
  init_reply :: "(string \<times> string) json http"
  put_reply :: "string option http"
  ingest_reply :: "string json http"
  poll_reply :: "nat \<Rightarrow> poll_result json http"

subsection \<open>Effects and exceptions\<close>

datatype request =
    PostInit string
  | PutPayload string string
  | PostIngest string string
  | PostPoll string

text \<open>The exceptions raised inside the \<open>try\<close> block.\<close>

datatype exn =
    RequestException
  | JSONDecodeError bool
  | KeyError
  | ETagMismatch string string

text \<open>The lines the driver prints, by their format string.\<close>

datatype message =
    NoStatements string
  | Starting nat string
  | Completed string
  | ImportFailed string string
  | NetworkError string
  | DecodeFailure string
  | UnexpectedError string exn

datatype event = Request request | Print message | Sleep nat

text \<open>
  The three \<open>except\<close> clauses, in the order of the source:
  \<open>requests.exceptions.RequestException\<close>, \<open>json.JSONDecodeError\<close>, \<open>Exception\<close>.
\<close>

fun is_RequestException :: "exn \<Rightarrow> bool" where
  "is_RequestException RequestException = True"
| "is_RequestException (JSONDecodeError b) = b"
| "is_RequestException _ = False"

fun is_JSONDecodeError :: "exn \<Rightarrow> bool" where
  "is_JSONDecodeError (JSONDecodeError b) = True"
| "is_JSONDecodeError _ = False"

definition except_clause :: "string \<Rightarrow> exn \<Rightarrow> message" where
  "except_clause table_name e =
     (if is_RequestException e then NetworkError table_name
      else if is_JSONDecodeError e then DecodeFailure table_name
      else UnexpectedError table_name e)"

text \<open>
  \<open>r = requests.post(...); r.raise_for_status(); r.json()[...]\<close>:
  the value read, or the exception raised.
\<close>

fun decode :: "'a json http \<Rightarrow> exn + 'a" where
  "decode ConnectionError = Inl RequestException"
| "decode HTTPError = Inl RequestException"
| "decode (Response (Undecodable b)) = Inl (JSONDecodeError b)"
| "decode (Response NoSuchKey) = Inl KeyError"
| "decode (Response (Fields x)) = Inr x"

subsection \<open>The poll loop\<close>

definition not_importing :: string where
  "not_importing = ''Not currently importing anything.''"

text \<open>
  One iteration of \<open>while True\<close>, after the request:
  \<^verbatim>\<open>
  poll_response.raise_for_status()
  poll_result = poll_response.json()["result"]
  if poll_result["success"] or (not poll_result["success"] and
        poll_result["error"] == "Not currently importing anything."):
      break
  time.sleep(2)
  \<close>
  The key \<open>"error"\<close> is read only when \<open>success\<close> is false.
\<close>

datatype poll_step = Raise exn | Break poll_result | Continue

definition poll_once :: "poll_result json http \<Rightarrow> poll_step" where
  "poll_once r =
     (case decode r of
        Inl e \<Rightarrow> Raise e
      | Inr poll_result \<Rightarrow>
          if success poll_result then Break poll_result
          else (case error poll_result of
                  None \<Rightarrow> Raise KeyError
                | Some e \<Rightarrow> if e = not_importing then Break poll_result else Continue))"

text \<open>
  The loop has no bound, so it is a partial function: \<open>None\<close> is a loop that never
  ends. \<open>i\<close> counts the polls made so far and \<open>tr\<close> is the trace of the effects so far.
  The result is the trace and either the exception raised or the last \<open>poll_result\<close>.
\<close>

partial_function (option) poll_loop ::
  "(nat \<Rightarrow> poll_result json http) \<Rightarrow> string \<Rightarrow> nat \<Rightarrow> event list
     \<Rightarrow> (event list \<times> (exn + poll_result)) option" where
  "poll_loop polls bookmark i tr =
     (case poll_once (polls i) of
        Raise e \<Rightarrow> Some (tr @ [Request (PostPoll bookmark)], Inl e)
      | Break poll_result \<Rightarrow> Some (tr @ [Request (PostPoll bookmark)], Inr poll_result)
      | Continue \<Rightarrow> poll_loop polls bookmark (Suc i) (tr @ [Request (PostPoll bookmark), Sleep 2]))"

declare poll_loop.simps [code]

subsection \<open>The driver\<close>

text \<open>
  The lines after the loop:
  \<^verbatim>\<open>
  if poll_result["success"]:
      print(f"  D1 bulk import for {table_name} completed successfully.")
  else:
      print(f"  D1 bulk import for {table_name} failed: {poll_result["error"]}")
  \<close>
\<close>

definition after_loop :: "string \<Rightarrow> poll_result \<Rightarrow> exn + message" where
  "after_loop table_name poll_result =
     (if success poll_result then Inr (Completed table_name)
      else (case error poll_result of
              None \<Rightarrow> Inl KeyError
            | Some e \<Rightarrow> Inr (ImportFailed table_name e)))"

text \<open>
  The body of the \<open>try\<close> block: init, upload, comparison of the echoed \<open>ETag\<close> with
  the checksum, ingest, poll. \<open>payload\<close> is the text \<open>full_sql_command\<close> of the
  source. The result is the trace of the effects together with the exception that
  left the block, if any.
\<close>

definition try_block ::
  "server \<Rightarrow> string \<Rightarrow> string \<Rightarrow> string \<Rightarrow> (event list \<times> exn option) option" where
  "try_block srv table_name payload hash_str =
     (let tr1 = [Request (PostInit hash_str)] in
      case decode (init_reply srv) of
        Inl e \<Rightarrow> Some (tr1, Some e)
      | Inr (upload_url, filename) \<Rightarrow>
         (let tr2 = tr1 @ [Request (PutPayload upload_url payload)] in
          case put_reply srv of
            ConnectionError \<Rightarrow> Some (tr2, Some RequestException)
          | HTTPError \<Rightarrow> Some (tr2, Some RequestException)
          | Response etag_header \<Rightarrow>
             (let r2_etag = remove_dquotes (case etag_header of None \<Rightarrow> [] | Some h \<Rightarrow> h) in
              if r2_etag \<noteq> hash_str then Some (tr2, Some (ETagMismatch hash_str r2_etag))
              else
               (let tr3 = tr2 @ [Request (PostIngest hash_str filename)] in
                case decode (ingest_reply srv) of
                  Inl e \<Rightarrow> Some (tr3, Some e)
                | Inr bookmark \<Rightarrow>
                   (case poll_loop (poll_reply srv) bookmark 0 tr3 of
                      None \<Rightarrow> None
                    | Some (tr4, Inl e) \<Rightarrow> Some (tr4, Some e)
                    | Some (tr4, Inr poll_result) \<Rightarrow>
                       (case after_loop table_name poll_result of
                          Inl e \<Rightarrow> Some (tr4, Some e)
                        | Inr m \<Rightarrow> Some (tr4 @ [Print m], None)))))))"

text \<open>
  \<^verbatim>\<open>full_sql_command = ";\n".join(sql_statements) + ";"\<close>
\<close>

definition full_sql_command :: "string list \<Rightarrow> string" where
  "full_sql_command sql_statements = join [CHR '';'', CHR 0x0A] sql_statements @ '';''"

text \<open>
  The driver. \<open>md5\<close> stands for \<open>hashlib.md5(...).hexdigest()\<close> on the encoded
  payload. The Python function returns no value: what it does is the trace of its
  requests and printed lines, and \<open>None\<close> is a call that never returns.

  The function is the one of \<open>ingest_montreal_opendata.py\<close> and of
  \<open>ingest_real_sign_photos.py\<close>. The copy in \<open>ingest_digital_assets.py\<close> has
  the same test of the empty list, the same phases, loop and lines after the loop;
  it looks the database up after the test of the empty list and prints two more
  progress lines.
\<close>

definition d1_bulk_import ::
  "(string \<Rightarrow> string) \<Rightarrow> server \<Rightarrow> string \<Rightarrow> string list \<Rightarrow> event list option" where
  "d1_bulk_import md5 srv table_name sql_statements =
     (if sql_statements = [] then Some [Print (NoStatements table_name)]
      else
       (let payload = full_sql_command sql_statements;
            hash_str = md5 payload;
            tr0 = [Print (Starting (length sql_statements) table_name)] in
        case try_block srv table_name payload hash_str of
          None \<Rightarrow> None
        | Some (tr, None) \<Rightarrow> Some (tr0 @ tr)
        | Some (tr, Some e) \<Rightarrow> Some (tr0 @ tr @ [Print (except_clause table_name e)])))"

subsection \<open>Reading a trace\<close>

text \<open>The outcome a printed line reports, and the outcome of a call: its last report.\<close>

datatype outcome = SUCCEEDED | FAILED

fun reported :: "event \<Rightarrow> outcome option" where
  "reported (Print (Completed t)) = Some SUCCEEDED"
| "reported (Print (ImportFailed t e)) = Some FAILED"
| "reported (Print (NetworkError t)) = Some FAILED"
| "reported (Print (DecodeFailure t)) = Some FAILED"
| "reported (Print (UnexpectedError t e)) = Some FAILED"
| "reported _ = None"

definition outcome_of :: "event list \<Rightarrow> outcome option" where
  "outcome_of tr = (case tr of [] \<Rightarrow> None | _ \<Rightarrow> reported (last tr))"

fun is_request :: "event \<Rightarrow> bool" where
  "is_request (Request r) = True"
| "is_request _ = False"

fun is_ingest :: "event \<Rightarrow> bool" where
  "is_ingest (Request (PostIngest h f)) = True"
| "is_ingest _ = False"

fun is_poll :: "event \<Rightarrow> bool" where
  "is_poll (Request (PostPoll b)) = True"
| "is_poll _ = False"

fun is_init :: "event \<Rightarrow> bool" where
  "is_init (Request (PostInit h)) = True"
| "is_init _ = False"

fun is_put :: "event \<Rightarrow> bool" where
  "is_put (Request (PutPayload u p)) = True"
| "is_put _ = False"

text \<open>The trace of \<open>n\<close> polls that each found the import still running.\<close>

definition polls_of :: "string \<Rightarrow> nat \<Rightarrow> event list" where
  "polls_of bookmark n = concat (replicate n [Request (PostPoll bookmark), Sleep 2])"

text \<open>A poll answer that reports neither success nor the sentinel: a decoded result
  with \<open>success\<close> false and an \<open>error\<close> text other than the sentinel.\<close>

definition in_progress :: "poll_result json http \<Rightarrow> bool" where
  "in_progress r =
     (case r of
        Response (Fields pr) \<Rightarrow>
          \<not> success pr \<and> (case error pr of None \<Rightarrow> False | Some e \<Rightarrow> e \<noteq> not_importing)
      | _ \<Rightarrow> False)"

subsection \<open>A phase that raises\<close>

text \<open>
  \<open>phase_raises srv payload hash_str tr e\<close>: with the answers \<open>srv\<close>, the phases
  before some phase go through and that phase raises \<open>e\<close>, after the requests
  \<open>tr\<close>. The phase is the init call, the upload, the comparison of the \<open>ETag\<close>
  with the checksum, the ingest call, or a poll that follows \<open>n\<close> polls which
  found the import in progress.
\<close>

inductive phase_raises :: "server \<Rightarrow> string \<Rightarrow> string \<Rightarrow> event list \<Rightarrow> exn \<Rightarrow> bool"
  for srv :: server and payload :: string and hash_str :: string where
  at_init:
    "decode (init_reply srv) = Inl e \<Longrightarrow>
     phase_raises srv payload hash_str [Request (PostInit hash_str)] e"
| at_upload:
    "decode (init_reply srv) = Inr (upload_url, filename) \<Longrightarrow>
     put_reply srv = ConnectionError \<or> put_reply srv = HTTPError \<Longrightarrow>
     phase_raises srv payload hash_str
       [Request (PostInit hash_str), Request (PutPayload upload_url payload)] RequestException"
| at_checksum:
    "decode (init_reply srv) = Inr (upload_url, filename) \<Longrightarrow>
     put_reply srv = Response etag_header \<Longrightarrow>
     r2_etag = remove_dquotes (case etag_header of None \<Rightarrow> [] | Some x \<Rightarrow> x) \<Longrightarrow>
     r2_etag \<noteq> hash_str \<Longrightarrow>
     phase_raises srv payload hash_str
       [Request (PostInit hash_str), Request (PutPayload upload_url payload)]
       (ETagMismatch hash_str r2_etag)"
| at_ingest:
    "decode (init_reply srv) = Inr (upload_url, filename) \<Longrightarrow>
     put_reply srv = Response etag_header \<Longrightarrow>
     remove_dquotes (case etag_header of None \<Rightarrow> [] | Some x \<Rightarrow> x) = hash_str \<Longrightarrow>
     decode (ingest_reply srv) = Inl e \<Longrightarrow>
     phase_raises srv payload hash_str
       [Request (PostInit hash_str), Request (PutPayload upload_url payload),
        Request (PostIngest hash_str filename)] e"
| at_poll:
    "decode (init_reply srv) = Inr (upload_url, filename) \<Longrightarrow>
     put_reply srv = Response etag_header \<Longrightarrow>
     remove_dquotes (case etag_header of None \<Rightarrow> [] | Some x \<Rightarrow> x) = hash_str \<Longrightarrow>
     decode (ingest_reply srv) = Inr bookmark \<Longrightarrow>
     \<forall>j<n. in_progress (poll_reply srv j) \<Longrightarrow>
     poll_once (poll_reply srv n) = Raise e \<Longrightarrow>
     phase_raises srv payload hash_str
       ([Request (PostInit hash_str), Request (PutPayload upload_url payload),
         Request (PostIngest hash_str filename)]
          @ polls_of bookmark n @ [Request (PostPoll bookmark)]) e"

section \<open>Batcher: the loop of the ingestion functions\<close>

text \<open>
  The loop shared by the ingestion functions (\<open>ingest_poles_data\<close>,
  \<open>ingest_digital_assets\<close>, ...), over the statements built from the rows:
  \<^verbatim>\<open>
  sql_statements_batch = []
  for ... :
      sql_statements_batch.append(stmt)
      if len(sql_statements_batch) >= batch_size:
          d1_bulk_import(table, sql_statements_batch)
          sql_statements_batch = []
  if sql_statements_batch:
      d1_bulk_import(table, sql_statements_batch)
  \<close>
  The call of the driver is the parameter \<open>submit\<close>, an action on a world \<open>'w\<close>
  that may never return (\<open>None\<close>).
\<close>

fun for_rows ::
  "('a list \<Rightarrow> 'w \<Rightarrow> 'w option) \<Rightarrow> nat \<Rightarrow> 'a list \<Rightarrow> 'a list \<Rightarrow> 'w \<Rightarrow> ('a list \<times> 'w) option" where
  "for_rows submit batch_size batch [] w = Some (batch, w)"
| "for_rows submit batch_size batch (s # rest) w =
     (let batch' = batch @ [s] in
      if length batch' \<ge> batch_size then
        (case submit batch' w of
           None \<Rightarrow> None
         | Some w' \<Rightarrow> for_rows submit batch_size [] rest w')
      else for_rows submit batch_size batch' rest w)"

definition ingest_rows ::
  "('a list \<Rightarrow> 'w \<Rightarrow> 'w option) \<Rightarrow> nat \<Rightarrow> 'a list \<Rightarrow> 'w \<Rightarrow> 'w option" where
  "ingest_rows submit batch_size stmts w =
     (case for_rows submit batch_size [] stmts w of
        None \<Rightarrow> None
      | Some (batch, w') \<Rightarrow> if batch \<noteq> [] then submit batch w' else Some w')"

text \<open>Two drivers: one that only records the batch it is given, and the real one,
  whose \<open>k\<close>-th call is answered by \<open>srvs k\<close>.\<close>

definition record_call :: "'a list \<Rightarrow> 'a list list \<Rightarrow> 'a list list option" where
  "record_call batch calls = Some (calls @ [batch])"

definition drive ::
  "(string \<Rightarrow> string) \<Rightarrow> (nat \<Rightarrow> server) \<Rightarrow> string \<Rightarrow> string list
     \<Rightarrow> nat \<times> event list \<Rightarrow> (nat \<times> event list) option" where
  "drive md5 srvs table_name batch w =
     (case w of (k, tr) \<Rightarrow>
        (case d1_bulk_import md5 (srvs k) table_name batch of
           None \<Rightarrow> None
         | Some tr' \<Rightarrow> Some (Suc k, tr @ tr')))"

text \<open>Handing a list of batches to the driver, one after the other.\<close>

fun submit_each :: "('b \<Rightarrow> 'w \<Rightarrow> 'w option) \<Rightarrow> 'b list \<Rightarrow> 'w \<Rightarrow> 'w option" where
  "submit_each submit [] w = Some w"
| "submit_each submit (b # bs) w =
     (case submit b w of None \<Rightarrow> None | Some w' \<Rightarrow> submit_each submit bs w')"

text \<open>
  The batches the loop hands over and the statements left in the buffer when the
  rows are exhausted, as a function of the buffer and the rows alone.
\<close>

fun split_batches :: "nat \<Rightarrow> 'a list \<Rightarrow> 'a list \<Rightarrow> 'a list list \<times> 'a list" where
  "split_batches B batch [] = ([], batch)"
| "split_batches B batch (s # rest) =
     (if length (batch @ [s]) \<ge> B
      then ((batch @ [s]) # fst (split_batches B [] rest), snd (split_batches B [] rest))
      else split_batches B (batch @ [s]) rest)"

section \<open>Example runs\<close>

text \<open>A checksum function, a remote service and poll answers for concrete runs.\<close>

definition example_md5 :: "string \<Rightarrow> string" where
  "example_md5 payload = ''9e107d9d''"

definition example_server :: "string \<Rightarrow> (nat \<Rightarrow> poll_result json http) \<Rightarrow> server" where
  "example_server etag polls =
     \<lparr>init_reply = Response (Fields (''https://r2/upload'', ''import.sql'')),
      put_reply = Response (Some ([dquote] @ etag @ [dquote])),
      ingest_reply = Response (Fields ''bm-0''),
      poll_reply = polls\<rparr>"

definition say_not_importing :: "nat \<Rightarrow> poll_result json http" where
  "say_not_importing i = Response (Fields \<lparr>success = False, error = Some not_importing\<rparr>)"

definition say_busy :: "nat \<Rightarrow> poll_result json http" where
  "say_busy i = Response (Fields \<lparr>success = False, error = Some ''Import failed''\<rparr>)"

definition busy_then_not_importing :: "nat \<Rightarrow> poll_result json http" where
  "busy_then_not_importing i = (if i < 1 then say_busy i else say_not_importing i)"

definition busy_then_timeout :: "nat \<Rightarrow> poll_result json http" where
  "busy_then_timeout i = (if i < 1 then say_busy i else ConnectionError)"

definition say_done :: "nat \<Rightarrow> poll_result json http" where
  "say_done i = Response (Fields \<lparr>success = True, error = None\<rparr>)"

text \<open>A service whose first import loses the connection at the second poll and
  whose later imports succeed at the first poll.\<close>

definition example_servers :: "nat \<Rightarrow> server" where
  "example_servers k =
     example_server ''9e107d9d'' (if k = 0 then busy_then_timeout else say_done)"

text \<open>A textual form for floats, for concrete records.\<close>

definition example_fstr :: "nat \<Rightarrow> string" where
  "example_fstr x = ''45.5''"

definition example_stmt :: string where
  "example_stmt = ''INSERT OR REPLACE INTO poles (pole_id) VALUES ('' @ [quote] @ ''7'' @ [quote] @ '')''"

section \<open>Auxiliary facts\<close>

subsection \<open>The poll loop\<close>

lemma polls_of_Suc: "polls_of b (Suc n) = [Request (PostPoll b), Sleep 2] @ polls_of b n"
  by (simp add: polls_of_def)

lemma polls_of_0: "polls_of b 0 = []"
  by (simp add: polls_of_def)

lemma count_polls_of: "length (filter is_poll (polls_of b n)) = n"
  by (induction n) (simp_all add: polls_of_0 polls_of_Suc)

lemma no_init_polls_of: "filter is_init (polls_of b n) = []"
  by (induction n) (simp_all add: polls_of_0 polls_of_Suc)

lemma no_put_polls_of: "filter is_put (polls_of b n) = []"
  by (induction n) (simp_all add: polls_of_0 polls_of_Suc)

lemma no_ingest_polls_of: "filter is_ingest (polls_of b n) = []"
  by (induction n) (simp_all add: polls_of_0 polls_of_Suc)

lemma in_progress_Continue: "in_progress r \<longleftrightarrow> poll_once r = Continue"
  by (cases r rule: decode.cases)
     (auto simp: in_progress_def poll_once_def split: option.splits)

lemma poll_loop_Raise:
  "poll_once (polls i) = Raise e \<Longrightarrow>
   poll_loop polls b i tr = Some (tr @ [Request (PostPoll b)], Inl e)"
  by (subst poll_loop.simps) simp

lemma poll_loop_Break:
  "poll_once (polls i) = Break pr \<Longrightarrow>
   poll_loop polls b i tr = Some (tr @ [Request (PostPoll b)], Inr pr)"
  by (subst poll_loop.simps) simp

lemma poll_loop_Continue:
  "poll_once (polls i) = Continue \<Longrightarrow>
   poll_loop polls b i tr = poll_loop polls b (Suc i) (tr @ [Request (PostPoll b), Sleep 2])"
  by (subst poll_loop.simps) simp

lemma poll_loop_skip:
  "(\<forall>j<n. poll_once (polls (i + j)) = Continue) \<Longrightarrow>
   poll_loop polls b i tr = poll_loop polls b (i + n) (tr @ polls_of b n)"
proof (induction n arbitrary: i tr)
  case 0
  then show ?case by (simp add: polls_of_def)
next
  case (Suc n)
  from Suc.prems have first: "poll_once (polls i) = Continue"
    by (metis add.right_neutral zero_less_Suc)
  from Suc.prems have rest: "\<forall>j<n. poll_once (polls (Suc i + j)) = Continue"
    by (metis Suc_less_eq add_Suc_shift)
  have "poll_loop polls b i tr = poll_loop polls b (Suc i) (tr @ [Request (PostPoll b), Sleep 2])"
    using first by (rule poll_loop_Continue [of polls i])
  also have "\<dots> = poll_loop polls b (Suc i + n) ((tr @ [Request (PostPoll b), Sleep 2]) @ polls_of b n)"
    by (rule Suc.IH [OF rest])
  finally show ?case by (simp add: polls_of_Suc)
qed

lemma poll_loop_skip0:
  "(\<forall>j<n. in_progress (polls j)) \<Longrightarrow>
   poll_loop polls b 0 tr = poll_loop polls b n (tr @ polls_of b n)"
  using poll_loop_skip [of n polls 0 b tr] by (simp add: in_progress_Continue)


lemma poll_loop_trace:
  assumes "poll_loop polls b i tr = Some y"
  shows "\<exists>n. fst y = tr @ polls_of b n @ [Request (PostPoll b)]"
proof (rule poll_loop.raw_induct
      [where P = "\<lambda>polls b i tr y. \<exists>n. fst y = tr @ polls_of b n @ [Request (PostPoll b)]", OF _ assms])
  fix f :: "(nat \<Rightarrow> poll_result json http) \<Rightarrow> string \<Rightarrow> nat \<Rightarrow> event list
              \<Rightarrow> (event list \<times> (exn + poll_result)) option"
  fix polls b i tr y
  assume IH: "\<And>polls b i tr y. f polls b i tr = Some y \<Longrightarrow>
                \<exists>n. fst y = tr @ polls_of b n @ [Request (PostPoll b)]"
  assume eq: "(case poll_once (polls i) of
      Raise e \<Rightarrow> Some (tr @ [Request (PostPoll b)], Inl e)
    | Break poll_result \<Rightarrow> Some (tr @ [Request (PostPoll b)], Inr poll_result)
    | Continue \<Rightarrow> f polls b (Suc i) (tr @ [Request (PostPoll b), Sleep 2])) = Some y"
  show "\<exists>n. fst y = tr @ polls_of b n @ [Request (PostPoll b)]"
  proof (cases "poll_once (polls i)")
    case (Raise e)
    with eq have "fst y = tr @ polls_of b 0 @ [Request (PostPoll b)]"
      by (auto simp: polls_of_def)
    then show ?thesis by blast
  next
    case (Break pr)
    with eq have "fst y = tr @ polls_of b 0 @ [Request (PostPoll b)]"
      by (auto simp: polls_of_def)
    then show ?thesis by blast
  next
    case Continue
    with eq have "f polls b (Suc i) (tr @ [Request (PostPoll b), Sleep 2]) = Some y" by simp
    from IH [OF this] obtain n where
      "fst y = (tr @ [Request (PostPoll b), Sleep 2]) @ polls_of b n @ [Request (PostPoll b)]"
      by blast
    then have "fst y = tr @ polls_of b (Suc n) @ [Request (PostPoll b)]"
      by (simp add: polls_of_Suc)
    then show ?thesis by blast
  qed
qed


subsection \<open>The try block\<close>

lemma d1_bulk_import_nonempty:
  "sql_statements \<noteq> [] \<Longrightarrow>
   d1_bulk_import md5 srv t sql_statements =
     (case try_block srv t (full_sql_command sql_statements) (md5 (full_sql_command sql_statements)) of
        None \<Rightarrow> None
      | Some (tr, None) \<Rightarrow> Some ([Print (Starting (length sql_statements) t)] @ tr)
      | Some (tr, Some e) \<Rightarrow>
          Some ([Print (Starting (length sql_statements) t)] @ tr @ [Print (except_clause t e)]))"
  by (simp add: d1_bulk_import_def Let_def)

lemma try_block_init_raises:
  "decode (init_reply srv) = Inl e \<Longrightarrow>
   try_block srv t payload h = Some ([Request (PostInit h)], Some e)"
  by (simp add: try_block_def)

lemma try_block_put_raises:
  "decode (init_reply srv) = Inr (url, fname) \<Longrightarrow>
   put_reply srv = ConnectionError \<or> put_reply srv = HTTPError \<Longrightarrow>
   try_block srv t payload h =
     Some ([Request (PostInit h), Request (PutPayload url payload)], Some RequestException)"
  by (auto simp: try_block_def)

lemma try_block_mismatch:
  "decode (init_reply srv) = Inr (url, fname) \<Longrightarrow>
   put_reply srv = Response etag_header \<Longrightarrow>
   remove_dquotes (case etag_header of None \<Rightarrow> [] | Some x \<Rightarrow> x) \<noteq> h \<Longrightarrow>
   try_block srv t payload h =
     Some ([Request (PostInit h), Request (PutPayload url payload)],
           Some (ETagMismatch h (remove_dquotes (case etag_header of None \<Rightarrow> [] | Some x \<Rightarrow> x))))"
  by (simp add: try_block_def Let_def)

lemma try_block_ingest_raises:
  "decode (init_reply srv) = Inr (url, fname) \<Longrightarrow>
   put_reply srv = Response etag_header \<Longrightarrow>
   remove_dquotes (case etag_header of None \<Rightarrow> [] | Some x \<Rightarrow> x) = h \<Longrightarrow>
   decode (ingest_reply srv) = Inl e \<Longrightarrow>
   try_block srv t payload h =
     Some ([Request (PostInit h), Request (PutPayload url payload), Request (PostIngest h fname)],
           Some e)"
  by (simp add: try_block_def Let_def)

lemma try_block_polling:
  "decode (init_reply srv) = Inr (url, fname) \<Longrightarrow>
   put_reply srv = Response etag_header \<Longrightarrow>
   remove_dquotes (case etag_header of None \<Rightarrow> [] | Some x \<Rightarrow> x) = h \<Longrightarrow>
   decode (ingest_reply srv) = Inr bookmark \<Longrightarrow>
   try_block srv t payload h =
     (case poll_loop (poll_reply srv) bookmark 0
             [Request (PostInit h), Request (PutPayload url payload), Request (PostIngest h fname)] of
        None \<Rightarrow> None
      | Some (tr4, Inl e) \<Rightarrow> Some (tr4, Some e)
      | Some (tr4, Inr poll_result) \<Rightarrow>
          (case after_loop t poll_result of
             Inl e \<Rightarrow> Some (tr4, Some e)
           | Inr m \<Rightarrow> Some (tr4 @ [Print m], None)))"
  by (simp add: try_block_def Let_def)

lemma try_block_poll_raises:
  assumes "decode (init_reply srv) = Inr (url, fname)"
    and "put_reply srv = Response etag_header"
    and "remove_dquotes (case etag_header of None \<Rightarrow> [] | Some x \<Rightarrow> x) = h"
    and "decode (ingest_reply srv) = Inr bookmark"
    and "\<forall>j<n. in_progress (poll_reply srv j)"
    and "poll_once (poll_reply srv n) = Raise e"
  shows "try_block srv t payload h =
     Some ([Request (PostInit h), Request (PutPayload url payload), Request (PostIngest h fname)]
             @ polls_of bookmark n @ [Request (PostPoll bookmark)], Some e)"
proof -
  let ?tr3 = "[Request (PostInit h), Request (PutPayload url payload), Request (PostIngest h fname)]"
  have "poll_loop (poll_reply srv) bookmark 0 ?tr3
          = poll_loop (poll_reply srv) bookmark n (?tr3 @ polls_of bookmark n)"
    by (rule poll_loop_skip0 [OF assms(5)])
  also have "\<dots> = Some ((?tr3 @ polls_of bookmark n) @ [Request (PostPoll bookmark)], Inl e)"
    using assms(6) by (rule poll_loop_Raise)
  finally show ?thesis
    by (simp add: try_block_polling [OF assms(1-4)])
qed

lemma phase_raises_try_block:
  assumes "phase_raises srv payload h tr e"
  shows "try_block srv t payload h = Some (tr, Some e)"
  using assms
proof cases
  case at_init
  then show ?thesis by (simp add: try_block_init_raises)
next
  case (at_upload upload_url filename)
  then show ?thesis using try_block_put_raises [of srv upload_url filename t payload h] by simp
next
  case (at_checksum upload_url filename etag_header r2_etag)
  then show ?thesis using try_block_mismatch [of srv upload_url filename etag_header h t payload] by simp
next
  case (at_ingest upload_url filename etag_header)
  then show ?thesis using try_block_ingest_raises [of srv upload_url filename etag_header h e t payload] by simp
next
  case (at_poll upload_url filename etag_header bookmark n)
  then show ?thesis
    using try_block_poll_raises [of srv upload_url filename etag_header h bookmark n e t payload] by simp
qed

lemma try_block_requests:
  assumes "try_block srv t p h = Some (tr, r)"
  shows "length (filter is_init tr) = 1 \<and> length (filter is_put tr) \<le> 1
       \<and> length (filter is_ingest tr) \<le> 1
       \<and> (r \<noteq> None \<longrightarrow> tr \<noteq> [] \<and> is_request (last tr))"
proof (cases "decode (init_reply srv)")
  case (Inl e)
  with assms show ?thesis by (auto simp: try_block_def)
next
  case (Inr uf)
  obtain u f where uf: "uf = (u, f)" by (cases uf)
  note d1 = Inr [unfolded uf]
  show ?thesis
  proof (cases "put_reply srv")
    case ConnectionError
    with assms d1 show ?thesis by (auto simp: try_block_def)
  next
    case HTTPError
    with assms d1 show ?thesis by (auto simp: try_block_def)
  next
    case (Response hdr)
    show ?thesis
    proof (cases "remove_dquotes (case hdr of None \<Rightarrow> [] | Some x \<Rightarrow> x) = h")
      case False
      from assms try_block_mismatch [OF d1 Response False, of t p]
      show ?thesis by auto
    next
      case True
      show ?thesis
      proof (cases "decode (ingest_reply srv)")
        case (Inl e)
        from assms try_block_ingest_raises [OF d1 Response True Inl, of t p]
        show ?thesis by auto
      next
        case (Inr b)
        let ?tr3 = "[Request (PostInit h), Request (PutPayload u p), Request (PostIngest h f)]"
        note tb = try_block_polling [OF d1 Response True Inr, of t p]
        show ?thesis
        proof (cases "poll_loop (poll_reply srv) b 0 ?tr3")
          case None
          with assms tb show ?thesis by simp
        next
          case (Some y)
          from poll_loop_trace [OF Some] obtain n where
            y: "fst y = ?tr3 @ polls_of b n @ [Request (PostPoll b)]" by blast
          have c: "length (filter is_init (fst y)) = 1 \<and> length (filter is_put (fst y)) \<le> 1
                 \<and> length (filter is_ingest (fst y)) \<le> 1
                 \<and> fst y \<noteq> [] \<and> is_request (last (fst y))"
            by (simp add: y no_init_polls_of no_put_polls_of no_ingest_polls_of)
          have "tr = fst y \<or> (\<exists>m. tr = fst y @ [Print m] \<and> r = None)"
            using assms tb Some by (cases y) (auto split: sum.splits)
          then show ?thesis using c by auto
        qed
      qed
    qed
  qed
qed

subsection \<open>The batching loop\<close>

lemma for_rows_split:
  "for_rows submit B batch ss w =
     map_option (Pair (snd (split_batches B batch ss))) (submit_each submit (fst (split_batches B batch ss)) w)"
  by (induction ss arbitrary: batch w) (auto simp: Let_def split: option.splits)

lemma split_batches_concat:
  "concat (fst (split_batches B batch ss)) @ snd (split_batches B batch ss) = batch @ ss"
  by (induction ss arbitrary: batch) auto

lemma split_batches_full:
  "length batch < B \<Longrightarrow> b \<in> set (fst (split_batches B batch ss)) \<Longrightarrow> length b = B"
proof (induction ss arbitrary: batch)
  case Nil
  then show ?case by simp
next
  case (Cons s rest)
  show ?case
  proof (cases "B \<le> length (batch @ [s])")
    case True
    with Cons.prems(1) have eq: "length (batch @ [s]) = B" by simp
    from Cons.prems(1) have pos: "length ([] :: 'a list) < B" by simp
    from Cons.prems(2) True
    have "b = batch @ [s] \<or> b \<in> set (fst (split_batches B [] rest))" by simp
    then show ?thesis using eq Cons.IH [OF pos] by blast
  next
    case False
    then have lt: "length (batch @ [s]) < B" by simp
    from Cons.prems(2) False
    have "b \<in> set (fst (split_batches B (batch @ [s]) rest))" by simp
    then show ?thesis using Cons.IH [OF lt] by blast
  qed
qed

lemma split_batches_rem:
  "length batch < B \<Longrightarrow> length (snd (split_batches B batch ss)) < B"
proof (induction ss arbitrary: batch)
  case Nil
  then show ?case by simp
next
  case (Cons s rest)
  from Cons.prems have pos: "length ([] :: 'a list) < B" by simp
  show ?case
  proof (cases "B \<le> length (batch @ [s])")
    case True
    then show ?thesis using Cons.IH [OF pos] by simp
  next
    case False
    then have lt: "length (batch @ [s]) < B" by simp
    show ?thesis using False Cons.IH [OF lt] by simp
  qed
qed

lemma submit_each_record: "submit_each record_call bs calls = Some (calls @ bs)"
  by (induction bs arbitrary: calls) (auto simp: record_call_def)

lemma submit_each_append:
  "submit_each submit (bs @ cs) w = (case submit_each submit bs w of None \<Rightarrow> None | Some w' \<Rightarrow> submit_each submit cs w')"
  by (induction bs arbitrary: w) (auto split: option.splits)

lemma concat_full_length:
  "\<forall>b \<in> set bs. length b = B \<Longrightarrow> length (concat bs) = length bs * B"
  by (induction bs) auto


lemma ceil_div_nat:
  fixes B :: nat
  assumes "0 < B"
  shows "(n + B - 1) div B = n div B + (if n mod B = 0 then 0 else 1)"
proof -
  define q where "q = n div B"
  define r where "r = n mod B"
  have n: "n = B * q + r" by (simp add: q_def r_def)
  have rlt: "r < B" using assms by (simp add: r_def)
  show ?thesis
  proof (cases "r = 0")
    case True
    have "B * q \<le> n + B - 1" using n assms by simp
    moreover have "n + B - 1 < B * Suc q" using n True assms by simp
    ultimately have "(n + B - 1) div B = q" by (rule div_nat_eqI)
    then show ?thesis using True by (simp add: q_def r_def)
  next
    case False
    have "B * Suc q \<le> n + B - 1" using n False by simp
    moreover have "n + B - 1 < B * Suc (Suc q)" using n rlt by simp
    ultimately have "(n + B - 1) div B = Suc q" by (rule div_nat_eqI)
    then show ?thesis using False by (simp add: q_def r_def)
  qed
qed

subsection \<open>Quoted literals\<close>

lemma unescape_other:
  "c \<noteq> quote \<Longrightarrow> xs \<noteq> [] \<Longrightarrow> unescape (c # xs) = map_option ((#) c) (unescape xs)"
  by (cases xs) simp_all

lemma unescape_replace_quote: "unescape (replace_quote s @ [quote]) = Some s"
proof (induction s)
  case Nil
  then show ?case by simp
next
  case (Cons c cs)
  show ?case
  proof (cases "c = quote")
    case True
    then show ?thesis using Cons.IH by simp
  next
    case False
    have "replace_quote cs @ [quote] \<noteq> []" by simp
    from unescape_other [OF False this] show ?thesis using False Cons.IH by simp
  qed
qed

lemma parse_quoted: "parse_sql_literal ([quote] @ replace_quote s @ [quote]) = Some s"
  by (simp add: parse_sql_literal_def unescape_replace_quote)

lemma replace_quote_concat:
  "replace_quote s = concat (map (\<lambda>c. if c = quote then [quote, quote] else [c]) s)"
  by (induction s) simp_all




section \<open>The properties\<close>

text \<open>
  C9: called with an empty statement list, the driver prints that there is nothing
  to import and returns. Its trace holds no request: no init call, no upload, no
  ingest call and no poll take place.
\<close>

theorem d1_bulk_import_empty:
  "d1_bulk_import md5 srv table_name [] = Some [Print (NoStatements table_name)]
   \<and> filter is_request [Print (NoStatements table_name)] = []"
  by (simp add: d1_bulk_import_def)

text \<open>
  C3: when the \<open>ETag\<close> echoed by the upload (double quotes removed, the empty
  string when the header is absent) differs from the checksum of the payload, the
  call ends with the failure report that names the mismatch. Its trace holds the
  init call and the upload only: no ingest call is made and no poll.
\<close>

theorem etag_mismatch_fails_before_ingest:
  assumes "sql_statements \<noteq> []"
    and "init_reply srv = Response (Fields (upload_url, filename))"
    and "put_reply srv = Response etag_header"
    and "remove_dquotes (case etag_header of None \<Rightarrow> [] | Some x \<Rightarrow> x)
           \<noteq> md5 (full_sql_command sql_statements)"
  shows "\<exists>tr. d1_bulk_import md5 srv table_name sql_statements = Some tr
     \<and> tr = [Print (Starting (length sql_statements) table_name),
             Request (PostInit (md5 (full_sql_command sql_statements))),
             Request (PutPayload upload_url (full_sql_command sql_statements)),
             Print (UnexpectedError table_name
               (ETagMismatch (md5 (full_sql_command sql_statements))
                  (remove_dquotes (case etag_header of None \<Rightarrow> [] | Some x \<Rightarrow> x))))]
     \<and> outcome_of tr = Some FAILED
     \<and> filter is_ingest tr = [] \<and> filter is_poll tr = []"
proof -
  have d: "decode (init_reply srv) = Inr (upload_url, filename)"
    using assms(2) by simp
  show ?thesis
    using try_block_mismatch [OF d assms(3) assms(4), of table_name "full_sql_command sql_statements"]
    by (simp add: d1_bulk_import_nonempty [OF assms(1)] except_clause_def outcome_of_def)
qed

theorem etag_mismatch_fails_before_ingest_witness:
  "[example_stmt] \<noteq> []
   \<and> remove_dquotes ([dquote] @ ''0000'' @ [dquote]) \<noteq> example_md5 (full_sql_command [example_stmt])
   \<and> d1_bulk_import example_md5 (example_server ''0000'' say_busy) ''poles'' [example_stmt] =
       Some [Print (Starting 1 ''poles''), Request (PostInit ''9e107d9d''),
             Request (PutPayload ''https://r2/upload'' (example_stmt @ '';'')),
             Print (UnexpectedError ''poles'' (ETagMismatch ''9e107d9d'' ''0000''))]"
proof -
  have ne: "[example_stmt] \<noteq> []" by simp
  have i: "init_reply (example_server ''0000'' say_busy)
             = Response (Fields (''https://r2/upload'', ''import.sql''))"
    by (simp add: example_server_def)
  have p: "put_reply (example_server ''0000'' say_busy)
             = Response (Some ([dquote] @ ''0000'' @ [dquote]))"
    by (simp add: example_server_def)
  have m: "remove_dquotes (case Some ([dquote] @ ''0000'' @ [dquote]) of None \<Rightarrow> [] | Some x \<Rightarrow> x)
             \<noteq> example_md5 (full_sql_command [example_stmt])"
    by (simp add: remove_dquotes_def dquote_def example_md5_def)
  from etag_mismatch_fails_before_ingest
    [where ?md5.0 = example_md5 and table_name = "''poles''", OF ne i p m] m
  show ?thesis
    by (simp add: remove_dquotes_def dquote_def example_md5_def full_sql_command_def)
qed

text \<open>
  C1, amended: when a poll answer has \<open>success\<close> false and the error text
  \<open>Not currently importing anything.\<close>, after \<open>n\<close> answers that were still in
  progress, the driver stops polling with that answer (\<open>n + 1\<close> polls in all) and
  returns. As \<open>success\<close> is false, the line it prints is the failure line carrying
  that error text, not the line of a successful import.
\<close>

theorem sentinel_stops_polling_reports_failure:
  assumes "sql_statements \<noteq> []"
    and "init_reply srv = Response (Fields (upload_url, filename))"
    and "put_reply srv = Response etag_header"
    and "remove_dquotes (case etag_header of None \<Rightarrow> [] | Some x \<Rightarrow> x)
           = md5 (full_sql_command sql_statements)"
    and "ingest_reply srv = Response (Fields bookmark)"
    and "\<forall>j<n. in_progress (poll_reply srv j)"
    and "poll_reply srv n = Response (Fields \<lparr>success = False, error = Some not_importing\<rparr>)"
  shows "\<exists>tr. d1_bulk_import md5 srv table_name sql_statements = Some tr
     \<and> tr = [Print (Starting (length sql_statements) table_name),
             Request (PostInit (md5 (full_sql_command sql_statements))),
             Request (PutPayload upload_url (full_sql_command sql_statements)),
             Request (PostIngest (md5 (full_sql_command sql_statements)) filename)]
            @ polls_of bookmark n
            @ [Request (PostPoll bookmark), Print (ImportFailed table_name not_importing)]
     \<and> length (filter is_poll tr) = Suc n
     \<and> outcome_of tr = Some FAILED"
proof -
  let ?h = "md5 (full_sql_command sql_statements)"
  let ?tr3 = "[Request (PostInit ?h), Request (PutPayload upload_url (full_sql_command sql_statements)),
               Request (PostIngest ?h filename)]"
  let ?pr = "\<lparr>success = False, error = Some not_importing\<rparr>"
  have d1: "decode (init_reply srv) = Inr (upload_url, filename)" using assms(2) by simp
  have d2: "decode (ingest_reply srv) = Inr bookmark" using assms(5) by simp
  have last: "poll_once (poll_reply srv n) = Break ?pr"
    by (simp add: assms(7) poll_once_def)
  have "poll_loop (poll_reply srv) bookmark 0 ?tr3
          = poll_loop (poll_reply srv) bookmark n (?tr3 @ polls_of bookmark n)"
    by (rule poll_loop_skip0 [OF assms(6)])
  also have "\<dots> = Some ((?tr3 @ polls_of bookmark n) @ [Request (PostPoll bookmark)], Inr ?pr)"
    using last by (rule poll_loop_Break)
  finally have loop: "poll_loop (poll_reply srv) bookmark 0 ?tr3
          = Some ((?tr3 @ polls_of bookmark n) @ [Request (PostPoll bookmark)], Inr ?pr)" .
  have tb: "try_block srv table_name (full_sql_command sql_statements) ?h =
     Some (?tr3 @ polls_of bookmark n @ [Request (PostPoll bookmark),
            Print (ImportFailed table_name not_importing)], None)"
    by (simp add: try_block_polling [OF d1 assms(3) assms(4) d2] loop after_loop_def)
  show ?thesis
    by (simp add: d1_bulk_import_nonempty [OF assms(1)] tb count_polls_of outcome_of_def)
qed

theorem sentinel_stops_polling_reports_failure_witness:
  "[example_stmt] \<noteq> []
   \<and> in_progress (busy_then_not_importing 0)
   \<and> busy_then_not_importing 1 = Response (Fields \<lparr>success = False, error = Some not_importing\<rparr>)
   \<and> d1_bulk_import example_md5 (example_server ''9e107d9d'' busy_then_not_importing) ''poles''
        [example_stmt] =
       Some [Print (Starting 1 ''poles''), Request (PostInit ''9e107d9d''),
             Request (PutPayload ''https://r2/upload'' (example_stmt @ '';'')),
             Request (PostIngest ''9e107d9d'' ''import.sql''),
             Request (PostPoll ''bm-0''), Sleep 2, Request (PostPoll ''bm-0''),
             Print (ImportFailed ''poles'' not_importing)]"
proof -
  let ?srv = "example_server ''9e107d9d'' busy_then_not_importing"
  have ne: "[example_stmt] \<noteq> []" by simp
  have i: "init_reply ?srv = Response (Fields (''https://r2/upload'', ''import.sql''))"
    by (simp add: example_server_def)
  have p: "put_reply ?srv = Response (Some ([dquote] @ ''9e107d9d'' @ [dquote]))"
    by (simp add: example_server_def)
  have m: "remove_dquotes (case Some ([dquote] @ ''9e107d9d'' @ [dquote]) of None \<Rightarrow> [] | Some x \<Rightarrow> x)
             = example_md5 (full_sql_command [example_stmt])"
    by (simp add: remove_dquotes_def dquote_def example_md5_def)
  have g: "ingest_reply ?srv = Response (Fields ''bm-0'')"
    by (simp add: example_server_def)
  have busy: "in_progress (busy_then_not_importing 0)"
    by (simp add: busy_then_not_importing_def say_busy_def in_progress_def not_importing_def)
  then have b: "\<forall>j<1. in_progress (poll_reply ?srv j)"
    by (simp add: example_server_def)
  have "busy_then_not_importing 1 = Response (Fields \<lparr>success = False, error = Some not_importing\<rparr>)"
    by (simp add: busy_then_not_importing_def say_not_importing_def)
  then have s: "poll_reply ?srv 1 = Response (Fields \<lparr>success = False, error = Some not_importing\<rparr>)"
    by (simp add: example_server_def)
  from sentinel_stops_polling_reports_failure
    [where ?md5.0 = example_md5 and table_name = "''poles''", OF ne i p m g b s] busy s
  show ?thesis
    by (simp add: example_md5_def full_sql_command_def polls_of_def example_server_def)
qed

text \<open>
  The line printed when the first poll answer is the sentinel: the failure line.
  The run does not report a successful import.
\<close>

theorem sentinel_reported_as_failure_counterexample:
  "d1_bulk_import example_md5 (example_server ''9e107d9d'' say_not_importing) ''poles''
        [example_stmt] =
       Some [Print (Starting 1 ''poles''), Request (PostInit ''9e107d9d''),
             Request (PutPayload ''https://r2/upload'' (example_stmt @ '';'')),
             Request (PostIngest ''9e107d9d'' ''import.sql''),
             Request (PostPoll ''bm-0''),
             Print (ImportFailed ''poles'' not_importing)]
   \<and> map_option outcome_of
        (d1_bulk_import example_md5 (example_server ''9e107d9d'' say_not_importing) ''poles''
           [example_stmt]) \<noteq> Some (Some SUCCEEDED)"
  by (simp add: d1_bulk_import_def try_block_def example_server_def example_md5_def
      full_sql_command_def remove_dquotes_def dquote_def poll_loop.simps poll_once_def
      say_not_importing_def not_importing_def after_loop_def Let_def outcome_of_def)



text \<open>
  C4: with a batch size \<open>B > 0\<close>, the loop over \<open>N\<close> statements hands
  \<open>\<lceil>N / B\<rceil>\<close> batches to the driver. Each batch is non-empty and of size at
  most \<open>B\<close>, and their concatenation, in order, is the input: every statement is
  handed over once, in the order it was added. The \<open>for\<close> loop itself hands over
  the \<open>N div B\<close> full batches and leaves the last \<open>N mod B\<close> statements in the
  buffer, which the final test of the buffer submits. For any driver, the run is
  the driver called on these batches one after the other.
\<close>

theorem batcher_submits_chunks:
  assumes "0 < B"
  shows "\<exists>bs. ingest_rows record_call B ss [] = Some bs
     \<and> length bs = (length ss + B - 1) div B
     \<and> (\<forall>b \<in> set bs. 0 < length b \<and> length b \<le> B)
     \<and> concat bs = ss
     \<and> for_rows record_call B [] ss [] =
         Some (drop (B * (length ss div B)) ss, take (length ss div B) bs)
     \<and> (\<forall>submit w. ingest_rows submit B ss w = submit_each submit bs w)"
proof -
  define full where "full = fst (split_batches B [] ss)"
  define rem where "rem = snd (split_batches B [] ss)"
  define bs where "bs = full @ (if rem \<noteq> [] then [rem] else [])"
  have empty: "length ([] :: 'a list) < B" using assms by simp
  have cat: "concat full @ rem = ss"
    using split_batches_concat [of B "[]" ss] by (simp add: full_def rem_def)
  have full: "\<forall>b \<in> set full. length b = B"
    using split_batches_full [OF empty] by (simp add: full_def)
  have remlt: "length rem < B"
    using split_batches_rem [OF empty] by (simp add: rem_def)
  have len: "length ss = length full * B + length rem"
    using cat concat_full_length [OF full] by (metis length_append)
  have q: "length ss div B = length full" using len remlt by simp
  have r: "length ss mod B = length rem" using len remlt by simp
  have loop: "for_rows submit B [] ss w = map_option (Pair rem) (submit_each submit full w)"
    for submit :: "'a list \<Rightarrow> 'b \<Rightarrow> 'b option" and w
    by (simp add: for_rows_split full_def rem_def)
  have replay: "ingest_rows submit B ss w = submit_each submit bs w"
    for submit :: "'a list \<Rightarrow> 'b \<Rightarrow> 'b option" and w
    by (simp add: ingest_rows_def loop bs_def submit_each_append split: option.splits)
  have loop_rec: "for_rows record_call B [] ss [] = Some (rem, full)"
    by (simp add: for_rows_split full_def rem_def submit_each_record)
  have rec: "ingest_rows record_call B ss [] = Some bs"
    by (simp add: ingest_rows_def loop_rec bs_def record_call_def)
  have "(length ss + B - 1) div B = length full + (if length rem = 0 then 0 else 1)"
    using ceil_div_nat [OF assms, of "length ss"] q r by simp
  then have c1: "length bs = (length ss + B - 1) div B"
    by (simp add: bs_def)
  have c2: "\<forall>b \<in> set bs. 0 < length b \<and> length b \<le> B"
    using full remlt assms by (auto simp: bs_def)
  have c3: "concat bs = ss" using cat by (auto simp: bs_def)
  have lc: "length (concat full) = B * (length ss div B)"
    using concat_full_length [OF full] q by (simp add: mult.commute)
  have "drop (length (concat full)) (concat full @ rem) = rem" by simp
  then have d: "drop (B * (length ss div B)) ss = rem" using cat lc by simp
  have t: "take (length ss div B) bs = full" by (simp add: q bs_def)
  have c4: "for_rows record_call B [] ss [] =
         Some (drop (B * (length ss div B)) ss, take (length ss div B) bs)"
    using loop_rec d t by simp
  from rec c1 c2 c3 c4 replay show ?thesis by blast
qed

theorem batcher_submits_chunks_witness:
  "(0::nat) < 2
   \<and> ingest_rows record_call 2 [''a'', ''b'', ''c''] [] = Some [[''a'', ''b''], [''c'']]
   \<and> for_rows record_call 2 [] [''a'', ''b'', ''c''] [] = Some ([''c''], [[''a'', ''b'']])"
proof -
  have pos: "(0::nat) < 2" by simp
  from batcher_submits_chunks [OF pos, of "[''a'', ''b'', ''c'']"]
  obtain bs where run: "ingest_rows record_call 2 [''a'', ''b'', ''c''] [] = Some bs"
    and cat: "concat bs = [''a'', ''b'', ''c'']"
    and loop: "for_rows record_call 2 [] [''a'', ''b'', ''c''] [] =
         Some (drop (2 * (length [''a'', ''b'', ''c''] div 2)) [''a'', ''b'', ''c''],
               take (length [''a'', ''b'', ''c''] div 2) bs)"
    by blast
  have "ingest_rows record_call 2 [''a'', ''b'', ''c''] [] = Some [[''a'', ''b''], [''c'']]"
    by (simp add: ingest_rows_def record_call_def)
  with run have bs: "bs = [[''a'', ''b''], [''c'']]" by simp
  from loop have "for_rows record_call 2 [] [''a'', ''b'', ''c''] [] = Some ([''c''], [[''a'', ''b'']])"
    unfolding bs by simp
  with run pos show ?thesis unfolding bs by blast
qed

text \<open>
  C7: a string value is rendered as a quote, the string with each of its quotes
  doubled, and a quote. Reading the literal back, that is dropping the enclosing
  quotes and halving the doubled ones, gives the string again: the literal is well
  formed whatever the string contains. In a statement of one column the literal is
  the text between the parentheses of \<open>VALUES\<close>.
\<close>

theorem string_literal_roundtrip:
  "render_value fstr (PStr s) = [quote] @ replace_quote s @ [quote]
   \<and> replace_quote s = concat (map (\<lambda>c. if c = quote then [quote, quote] else [c]) s)
   \<and> parse_sql_literal (render_value fstr (PStr s)) = Some s
   \<and> make_sql_insert fstr table_name [(column, PStr s)] =
        ''INSERT INTO '' @ table_name @ '' ('' @ column @ '') VALUES (''
          @ render_value fstr (PStr s) @ '')''"
proof -
  have r: "render_value fstr (PStr s) = [quote] @ replace_quote s @ [quote]"
    by (simp add: render_value_def)
  have p: "parse_sql_literal (render_value fstr (PStr s)) = Some s"
    unfolding r by (rule parse_quoted)
  have m: "make_sql_insert fstr table_name [(column, PStr s)] =
        ''INSERT INTO '' @ table_name @ '' ('' @ column @ '') VALUES (''
          @ render_value fstr (PStr s) @ '')''"
    by (simp add: make_sql_insert_def)
  from r replace_quote_concat [of s] p m show ?thesis by blast
qed



text \<open>
  C6: when the value of column \<open>i\<close> of a record is \<open>None\<close>, the element at
  position \<open>i\<close> of the \<open>VALUES\<close> list of the statement is the four characters
  \<open>NULL\<close>, without quotes. It is neither the quoted text \<open>None\<close> nor the quoted
  text \<open>null\<close>.
\<close>

theorem null_rendered_as_NULL:
  assumes "i < length data" and "snd (data ! i) = PNone"
  shows "make_sql_insert fstr table_name data =
       ''INSERT INTO '' @ table_name @ '' ('' @ join '', '' (map fst data) @ '') VALUES (''
         @ join '', '' (map (render_value fstr) (map snd (take i data)) @ [''NULL'']
                         @ map (render_value fstr) (map snd (drop (Suc i) data)))
         @ '')''
   \<and> render_value fstr (snd (data ! i)) = ''NULL''
   \<and> render_value fstr (snd (data ! i)) \<noteq> [quote] @ ''None'' @ [quote]
   \<and> render_value fstr (snd (data ! i)) \<noteq> [quote] @ ''null'' @ [quote]"
proof -
  have split: "data = take i data @ [data ! i] @ drop (Suc i) data"
    using assms(1) by (simp add: id_take_nth_drop)
  have "map (render_value fstr) (map snd data) =
        map (render_value fstr) (map snd (take i data)) @ [render_value fstr (snd (data ! i))]
          @ map (render_value fstr) (map snd (drop (Suc i) data))"
    by (subst split) simp
  then have vals: "map (render_value fstr) (map snd data) =
        map (render_value fstr) (map snd (take i data)) @ [''NULL'']
          @ map (render_value fstr) (map snd (drop (Suc i) data))"
    using assms(2) by (simp add: render_value_def)
  have m: "make_sql_insert fstr table_name data =
       ''INSERT INTO '' @ table_name @ '' ('' @ join '', '' (map fst data) @ '') VALUES (''
         @ join '', '' (map (render_value fstr) (map snd (take i data)) @ [''NULL'']
                         @ map (render_value fstr) (map snd (drop (Suc i) data)))
         @ '')''"
    by (simp only: make_sql_insert_def Let_def vals)
  have n: "render_value fstr (snd (data ! i)) = ''NULL''"
    by (simp add: assms(2) render_value_def)
  have q1: "render_value fstr (snd (data ! i)) \<noteq> [quote] @ ''None'' @ [quote]"
    by (simp add: n quote_def)
  have q2: "render_value fstr (snd (data ! i)) \<noteq> [quote] @ ''null'' @ [quote]"
    by (simp add: n quote_def)
  from m n q1 q2 show ?thesis by blast
qed

theorem null_rendered_as_NULL_witness:
  "(1::nat) < length [(''pole_id'', PInt 7), (''x_coord'', PNone :: nat pyval)]
   \<and> make_sql_insert example_fstr ''poles'' [(''pole_id'', PInt 7), (''x_coord'', PNone)] =
       ''INSERT INTO poles (pole_id, x_coord) VALUES ('' @ [quote] @ ''7'' @ [quote] @ '', NULL)''"
proof -
  have s: "render_value example_fstr (PInt 7) = [quote] @ ''7'' @ [quote]"
    by (simp add: render_value_def str_int_def str_nat.simps digit_char_def quote_def)
  from null_rendered_as_NULL
    [of 1 "[(''pole_id'', PInt 7), (''x_coord'', PNone :: nat pyval)]" example_fstr "''poles''"]
  have "make_sql_insert example_fstr ''poles'' [(''pole_id'', PInt 7), (''x_coord'', PNone)] =
       ''INSERT INTO poles ('' @ join '', '' [''pole_id'', ''x_coord''] @ '') VALUES (''
         @ join '', '' [render_value example_fstr (PInt 7), ''NULL''] @ '')''"
    by simp
  then show ?thesis by (simp add: s)
qed

text \<open>
  C2: when a phase of a submission raises, the call prints a failure line that
  names the cause, and returns. The exception is a \<open>RequestException\<close> of a call
  of the service (connection failure, time-out or error status, at the init call,
  the upload, the ingest call or a poll), a JSON decode error, or the \<open>ETag\<close>
  mismatch raised by the driver itself. A network failure is reported by the
  network line, a decode failure by the network line or the decode line (after
  the class of the exception the library raises), the mismatch by the line that
  carries the exception. The last effect before the failure line is the request
  that failed; the init call is made once, the upload and the ingest call at most
  once: nothing is tried again. Control returns to the ingestion loop, which
  empties its buffer and goes on with the remaining rows.
\<close>

theorem phase_failure_aborts_batch:
  assumes "sql_statements \<noteq> []"
    and "phase_raises (srvs k) (full_sql_command sql_statements)
           (md5 (full_sql_command sql_statements)) tr e"
  shows "\<exists>res. d1_bulk_import md5 (srvs k) table_name sql_statements = Some res
     \<and> res = [Print (Starting (length sql_statements) table_name)] @ tr
               @ [Print (except_clause table_name e)]
     \<and> outcome_of res = Some FAILED
     \<and> except_clause table_name e =
          (case e of
             RequestException \<Rightarrow> NetworkError table_name
           | JSONDecodeError b \<Rightarrow> if b then NetworkError table_name else DecodeFailure table_name
           | KeyError \<Rightarrow> UnexpectedError table_name e
           | ETagMismatch h g \<Rightarrow> UnexpectedError table_name e)
     \<and> is_request (last tr)
     \<and> length (filter is_init res) = 1 \<and> length (filter is_put res) \<le> 1
     \<and> length (filter is_ingest res) \<le> 1
     \<and> drive md5 srvs table_name sql_statements (k, tr0) = Some (Suc k, tr0 @ res)
     \<and> (batch @ [s] = sql_statements \<and> batch_size \<le> length sql_statements \<longrightarrow>
          for_rows (drive md5 srvs table_name) batch_size batch (s # rest) (k, tr0) =
          for_rows (drive md5 srvs table_name) batch_size [] rest (Suc k, tr0 @ res))"
proof -
  define res where "res = [Print (Starting (length sql_statements) table_name)] @ tr
               @ [Print (except_clause table_name e)]"
  have tb: "try_block (srvs k) table_name (full_sql_command sql_statements)
           (md5 (full_sql_command sql_statements)) = Some (tr, Some e)"
    by (rule phase_raises_try_block [OF assms(2)])
  have run: "d1_bulk_import md5 (srvs k) table_name sql_statements = Some res"
    by (simp add: d1_bulk_import_nonempty [OF assms(1)] tb res_def)
  have out: "outcome_of res = Some FAILED"
    by (cases e) (simp_all add: res_def outcome_of_def except_clause_def)
  have cause: "except_clause table_name e =
          (case e of
             RequestException \<Rightarrow> NetworkError table_name
           | JSONDecodeError b \<Rightarrow> if b then NetworkError table_name else DecodeFailure table_name
           | KeyError \<Rightarrow> UnexpectedError table_name e
           | ETagMismatch h g \<Rightarrow> UnexpectedError table_name e)"
    by (cases e) (simp_all add: except_clause_def)
  from try_block_requests [OF tb]
  have once: "length (filter is_init tr) = 1" "length (filter is_put tr) \<le> 1"
       "length (filter is_ingest tr) \<le> 1" and lastreq: "is_request (last tr)"
    by simp_all
  have counts: "length (filter is_init res) = 1 \<and> length (filter is_put res) \<le> 1
     \<and> length (filter is_ingest res) \<le> 1"
    using once by (simp add: res_def)
  have drv: "drive md5 srvs table_name sql_statements (k, tr0) = Some (Suc k, tr0 @ res)"
    by (simp add: drive_def run)
  have loop: "batch @ [s] = sql_statements \<and> batch_size \<le> length sql_statements \<longrightarrow>
          for_rows (drive md5 srvs table_name) batch_size batch (s # rest) (k, tr0) =
          for_rows (drive md5 srvs table_name) batch_size [] rest (Suc k, tr0 @ res)"
    using drv by (auto simp: Let_def)
  from run out cause lastreq counts drv loop show ?thesis
    unfolding res_def by blast
qed

theorem phase_failure_aborts_batch_witness:
  "[example_stmt] \<noteq> []
   \<and> phase_raises (example_servers 0) (full_sql_command [example_stmt])
         (example_md5 (full_sql_command [example_stmt]))
         [Request (PostInit ''9e107d9d''),
          Request (PutPayload ''https://r2/upload'' (example_stmt @ '';'')),
          Request (PostIngest ''9e107d9d'' ''import.sql''),
          Request (PostPoll ''bm-0''), Sleep 2, Request (PostPoll ''bm-0'')]
         RequestException
   \<and> d1_bulk_import example_md5 (example_servers 0) ''poles'' [example_stmt] =
       Some [Print (Starting 1 ''poles''), Request (PostInit ''9e107d9d''),
             Request (PutPayload ''https://r2/upload'' (example_stmt @ '';'')),
             Request (PostIngest ''9e107d9d'' ''import.sql''),
             Request (PostPoll ''bm-0''), Sleep 2, Request (PostPoll ''bm-0''),
             Print (NetworkError ''poles'')]
   \<and> ingest_rows (drive example_md5 example_servers ''poles'') 1 [example_stmt, ''x''] (0, []) =
       Some (2, [Print (Starting 1 ''poles''), Request (PostInit ''9e107d9d''),
             Request (PutPayload ''https://r2/upload'' (example_stmt @ '';'')),
             Request (PostIngest ''9e107d9d'' ''import.sql''),
             Request (PostPoll ''bm-0''), Sleep 2, Request (PostPoll ''bm-0''),
             Print (NetworkError ''poles''),
             Print (Starting 1 ''poles''), Request (PostInit ''9e107d9d''),
             Request (PutPayload ''https://r2/upload'' ''x;''),
             Request (PostIngest ''9e107d9d'' ''import.sql''),
             Request (PostPoll ''bm-0''), Print (Completed ''poles'')])"
proof -
  let ?tr = "[Request (PostInit ''9e107d9d''),
              Request (PutPayload ''https://r2/upload'' (example_stmt @ '';'')),
              Request (PostIngest ''9e107d9d'' ''import.sql''),
              Request (PostPoll ''bm-0''), Sleep 2, Request (PostPoll ''bm-0'')]"
  have ne: "[example_stmt] \<noteq> []" by simp
  have "phase_raises (example_servers 0) (full_sql_command [example_stmt])
         (example_md5 (full_sql_command [example_stmt]))
         ([Request (PostInit (example_md5 (full_sql_command [example_stmt]))),
           Request (PutPayload ''https://r2/upload'' (full_sql_command [example_stmt])),
           Request (PostIngest (example_md5 (full_sql_command [example_stmt])) ''import.sql'')]
            @ polls_of ''bm-0'' 1 @ [Request (PostPoll ''bm-0'')])
         RequestException"
  proof (rule phase_raises.at_poll)
    show "decode (init_reply (example_servers 0)) = Inr (''https://r2/upload'', ''import.sql'')"
      by (simp add: example_servers_def example_server_def)
    show "put_reply (example_servers 0) = Response (Some ([dquote] @ ''9e107d9d'' @ [dquote]))"
      by (simp add: example_servers_def example_server_def)
    show "remove_dquotes (case Some ([dquote] @ ''9e107d9d'' @ [dquote]) of None \<Rightarrow> [] | Some x \<Rightarrow> x)
            = example_md5 (full_sql_command [example_stmt])"
      by (simp add: remove_dquotes_def dquote_def example_md5_def)
    show "decode (ingest_reply (example_servers 0)) = Inr ''bm-0''"
      by (simp add: example_servers_def example_server_def)
    show "\<forall>j<1. in_progress (poll_reply (example_servers 0) j)"
      by (simp add: example_servers_def example_server_def busy_then_timeout_def say_busy_def
          in_progress_def not_importing_def)
    show "poll_once (poll_reply (example_servers 0) 1) = Raise RequestException"
      by (simp add: example_servers_def example_server_def busy_then_timeout_def poll_once_def)
  qed
  then have tb: "phase_raises (example_servers 0) (full_sql_command [example_stmt])
         (example_md5 (full_sql_command [example_stmt])) ?tr RequestException"
    by (simp add: polls_of_def example_md5_def full_sql_command_def)
  have second: "d1_bulk_import example_md5 (example_servers (Suc 0)) ''poles'' [''x''] =
       Some [Print (Starting 1 ''poles''), Request (PostInit ''9e107d9d''),
             Request (PutPayload ''https://r2/upload'' ''x;''),
             Request (PostIngest ''9e107d9d'' ''import.sql''),
             Request (PostPoll ''bm-0''), Print (Completed ''poles'')]"
    by (simp add: d1_bulk_import_def try_block_def example_servers_def example_server_def
        example_md5_def full_sql_command_def remove_dquotes_def dquote_def poll_loop.simps
        poll_once_def say_done_def after_loop_def Let_def)
  from phase_failure_aborts_batch
    [where sql_statements = "[example_stmt]" and srvs = example_servers and k = 0
       and table_name = "''poles''" and ?md5.0 = example_md5 and tr = ?tr and e = RequestException
       and ?tr0.0 = "[]" and batch = "[]" and s = example_stmt and batch_size = 1
       and rest = "[''x'']", OF ne tb]
  have run: "d1_bulk_import example_md5 (example_servers 0) ''poles'' [example_stmt] =
       Some ([Print (Starting 1 ''poles'')] @ ?tr @ [Print (except_clause ''poles'' RequestException)])"
    and loop: "for_rows (drive example_md5 example_servers ''poles'') 1 [] [example_stmt, ''x''] (0, []) =
          for_rows (drive example_md5 example_servers ''poles'') 1 [] [''x'']
            (Suc 0, [] @ [Print (Starting 1 ''poles'')] @ ?tr
                       @ [Print (except_clause ''poles'' RequestException)])"
    by simp_all
  have all: "ingest_rows (drive example_md5 example_servers ''poles'') 1 [example_stmt, ''x''] (0, []) =
       Some (2, [Print (Starting 1 ''poles'')] @ ?tr @ [Print (NetworkError ''poles''),
             Print (Starting 1 ''poles''), Request (PostInit ''9e107d9d''),
             Request (PutPayload ''https://r2/upload'' ''x;''),
             Request (PostIngest ''9e107d9d'' ''import.sql''),
             Request (PostPoll ''bm-0''), Print (Completed ''poles'')])"
    unfolding ingest_rows_def loop
    by (simp add: drive_def second except_clause_def)
  show ?thesis using ne tb run all by (simp add: except_clause_def)
qed

end
